theory Spec2Isabelle
  imports Main
begin

section \<open>JavaScript strings and values\<close>

text \<open>
  The scripts are JavaScript.  A JavaScript string is a sequence of 16-bit code units; the
  model uses \<^typ>\<open>string\<close>, one \<^typ>\<open>char\<close> per code unit, which covers the
  code units below 256 (version tags, image references and template variables are ASCII).
  A JavaScript number is a double; the model uses \<^typ>\<open>int\<close>, which agrees with the
  double for every integer of magnitude below \<open>2 ^ 53\<close>.  From \<open>2 ^ 53\<close> on \<open>parseInt\<close>
  rounds to the nearest double, and from \<open>10 ^ 21\<close> on \<open>String\<close> prints an exponent; the
  model does neither, so a statement that depends on the value of a number is made for
  numbers below \<open>2 ^ 53\<close> only.
\<close>

datatype jsval = Undefined | NaN | Num int | Str string

text \<open>Truthiness: \<open>undefined\<close>, \<open>NaN\<close>, \<open>0\<close> and the empty string are falsy.\<close>

fun truthy :: "jsval \<Rightarrow> bool" where
  "truthy Undefined = False"
| "truthy NaN = False"
| "truthy (Num n) = (n \<noteq> 0)"
| "truthy (Str s) = (s \<noteq> [])"

text \<open>\<open>a || b\<close>\<close>

definition js_or :: "jsval \<Rightarrow> jsval \<Rightarrow> jsval" where
  "js_or a b = (if truthy a then a else b)"

text \<open>\<open>typeof v === 'number'\<close>\<close>

fun is_number :: "jsval \<Rightarrow> bool" where
  "is_number NaN = True"
| "is_number (Num n) = True"
| "is_number v = False"

text \<open>
  \<open>x > y\<close> for operands that are numbers or \<open>undefined\<close>: \<open>undefined\<close> converts to
  \<open>NaN\<close>, and every comparison with \<open>NaN\<close> is false.
\<close>

fun num_gt :: "jsval \<Rightarrow> jsval \<Rightarrow> bool" where
  "num_gt (Num a) (Num b) = (b < a)"
| "num_gt x y = False"

text \<open>\<open>arr[i]\<close>: an index past the end reads \<open>undefined\<close>.\<close>

definition at :: "jsval list \<Rightarrow> nat \<Rightarrow> jsval" where
  "at arr i = (if i < length arr then arr ! i else Undefined)"

text \<open>\<open>s < t\<close> on two strings: lexicographic on code units, a proper prefix first.\<close>

fun str_lt :: "string \<Rightarrow> string \<Rightarrow> bool" where
  "str_lt [] [] = False"
| "str_lt [] (y # ys) = True"
| "str_lt (x # xs) [] = False"
| "str_lt (x # xs) (y # ys) =
     (if x = y then str_lt xs ys else (of_char x :: nat) < of_char y)"

text \<open>
  \<open>String(v)\<close>: an integer prints in decimal, with a minus sign when negative.  (This is
  \<open>String\<close> for magnitudes below \<open>10 ^ 21\<close>; from there on JavaScript prints an exponent.)
\<close>

function natToString :: "nat \<Rightarrow> string" where
  "natToString n =
     (if n < 10 then [char_of (48 + n)]
      else natToString (n div 10) @ [char_of (48 + n mod 10)])"
  by pat_completeness auto
termination
  by (relation "measure id") auto

declare natToString.simps [simp del]

fun toString :: "jsval \<Rightarrow> string" where
  "toString Undefined = ''undefined''"
| "toString NaN = ''NaN''"
| "toString (Num n) = (if n < 0 then CHR ''-'' # natToString (nat (- n)) else natToString (nat n))"
| "toString (Str s) = s"

text \<open>\<open>s.startsWith(p)\<close> and \<open>s.includes(p)\<close>\<close>

fun startsWith :: "string \<Rightarrow> string \<Rightarrow> bool" where
  "startsWith s [] = True"
| "startsWith [] (p # ps) = False"
| "startsWith (c # cs) (p # ps) = (c = p \<and> startsWith cs ps)"

fun includesStr :: "string \<Rightarrow> string \<Rightarrow> bool" where
  "includesStr [] p = (p = [])"
| "includesStr (c # cs) p = (startsWith (c # cs) p \<or> includesStr cs p)"

text \<open>
  \<open>s.split(sep)\<close> for a separator that matches exactly one code unit (the regular
  expression \<open>/[.-]/\<close>, the strings \<open>':'\<close> and \<open>'/'\<close>): empty pieces are kept, and the
  empty string splits into one empty piece.
\<close>

fun split_on :: "(char \<Rightarrow> bool) \<Rightarrow> string \<Rightarrow> string list" where
  "split_on sep [] = [[]]"
| "split_on sep (c # cs) =
     (if sep c then [] # split_on sep cs
      else (case split_on sep cs of
              p # ps \<Rightarrow> (c # p) # ps
            | [] \<Rightarrow> [[c]]))"

subsection \<open>parseInt\<close>

text \<open>
  \<open>parseInt(s)\<close> with no radix: leading white space is skipped, then one sign, then a
  \<open>0x\<close> or \<open>0X\<close> prefix selects radix 16; the longest run of digits of the radix is the
  value, and no digit at all gives \<open>NaN\<close>.  What follows the digits is ignored.  The
  value here is the exact integer the digits spell; JavaScript returns the nearest double,
  which is that integer whenever it is below \<open>2 ^ 53\<close>.
\<close>

definition isWhiteSpace :: "char \<Rightarrow> bool" where
  "isWhiteSpace c = (of_char c \<in> {9, 10, 11, 12, 13, 32, 160 :: nat})"

definition digitValue :: "char \<Rightarrow> nat option" where
  "digitValue c =
     (let k = (of_char c :: nat) in
      if 48 \<le> k \<and> k \<le> 57 then Some (k - 48)
      else if 97 \<le> k \<and> k \<le> 102 then Some (k - 87)
      else if 65 \<le> k \<and> k \<le> 70 then Some (k - 55)
      else None)"

definition isRadixDigit :: "nat \<Rightarrow> char \<Rightarrow> bool" where
  "isRadixDigit r c = (case digitValue c of None \<Rightarrow> False | Some d \<Rightarrow> d < r)"

definition digitsValue :: "nat \<Rightarrow> string \<Rightarrow> nat" where
  "digitsValue r z =
     foldl (\<lambda>acc c. acc * r + (case digitValue c of Some d \<Rightarrow> d | None \<Rightarrow> 0)) 0 z"

definition parseInt :: "string \<Rightarrow> jsval" where
  "parseInt s =
     (let s1 = dropWhile isWhiteSpace s;
          sign = (case s1 of c # r \<Rightarrow> if c = CHR ''-'' then - 1 else 1 | [] \<Rightarrow> (1 :: int));
          s2 = (case s1 of c # r \<Rightarrow> if c = CHR ''-'' \<or> c = CHR ''+'' then r else s1 | [] \<Rightarrow> []);
          hex = (case s2 of
                   c # d # r \<Rightarrow> c = CHR ''0'' \<and> (d = CHR ''x'' \<or> d = CHR ''X'')
                 | _ \<Rightarrow> False);
          radix = (if hex then 16 else 10);
          s3 = (if hex then drop 2 s2 else s2);
          z = takeWhile (isRadixDigit radix) s3
      in if z = [] then NaN else Num (sign * int (digitsValue radix z)))"

section \<open>The version comparator\<close>

text \<open>\<open>v.replace(/^v/, '')\<close>\<close>

definition stripV :: "string \<Rightarrow> string" where
  "stripV v = (case v of c # r \<Rightarrow> if c = CHR ''v'' then r else v | [] \<Rightarrow> [])"

text \<open>The separator \<open>/[.-]/\<close>\<close>

definition dotOrDash :: "char \<Rightarrow> bool" where
  "dotOrDash c = (c = CHR ''.'' \<or> c = CHR ''-'')"

text \<open>\<open>v.split(/[.-]/).map(p => parseInt(p) || p)\<close>\<close>

definition versionParts :: "string \<Rightarrow> jsval list" where
  "versionParts v = map (\<lambda>p. js_or (parseInt p) (Str p)) (split_on dotOrDash v)"

text \<open>
  The \<open>for\<close> loop of \<open>compareVersions\<close>, from index \<open>i\<close>: it returns from inside at the
  first position that differs and falls out with \<open>0\<close> at \<open>maxLen\<close>.
\<close>

function compareLoop :: "jsval list \<Rightarrow> jsval list \<Rightarrow> nat \<Rightarrow> nat \<Rightarrow> int" where
  "compareLoop parts1 parts2 maxLen i =
     (if i < maxLen then
        (let p1 = js_or (at parts1 i) (Num 0);
             p2 = js_or (at parts2 i) (Num 0)
         in if is_number p1 \<and> is_number p2 then
              (if num_gt p1 p2 then 1
               else if num_gt p2 p1 then - 1
               else compareLoop parts1 parts2 maxLen (Suc i))
            else
              (let str1 = toString p1; str2 = toString p2
               in if str_lt str2 str1 then 1
                  else if str_lt str1 str2 then - 1
                  else compareLoop parts1 parts2 maxLen (Suc i)))
      else 0)"
  by pat_completeness auto
termination
  by (relation "measure (\<lambda>(parts1, parts2, maxLen, i). maxLen - i)") auto

declare compareLoop.simps [simp del]

definition compareVersions :: "string \<Rightarrow> string \<Rightarrow> int" where
  "compareVersions v1 v2 =
     (if v1 = v2 then 0
      else
        (let parts1 = versionParts (stripV v1);
             parts2 = versionParts (stripV v2);
             maxLen = max (length parts1) (length parts2)
         in compareLoop parts1 parts2 maxLen 0))"

section \<open>The update-type classifier\<close>

datatype update_type = Major | Minor | Patch | Other

text \<open>\<open>v.replace(/^v/, '').split(/[.-]/).map(p => parseInt(p) || 0)\<close>\<close>

definition numericParts :: "string \<Rightarrow> jsval list" where
  "numericParts v = map (\<lambda>p. js_or (parseInt p) (Num 0)) (split_on dotOrDash (stripV v))"

text \<open>
  The three comparisons read the arrays by index; a position past the end of either array
  reads \<open>undefined\<close>, and \<open>>\<close> is then false.
\<close>

definition determineUpdateType :: "string \<Rightarrow> string \<Rightarrow> update_type" where
  "determineUpdateType current latest =
     (let currentParts = numericParts current;
          latestParts = numericParts latest
      in if num_gt (at latestParts 0) (at currentParts 0) then Major
         else if num_gt (at latestParts 1) (at currentParts 1) then Minor
         else if num_gt (at latestParts 2) (at currentParts 2) then Patch
         else Other)"

section \<open>The update detector\<close>

text \<open>
  The object \<open>detectUpdate\<close> returns.  The object built when there is no update has no
  \<open>updateType\<close> property: the field is \<open>None\<close> then.
\<close>

record verdict =
  hasUpdate :: bool
  currentVersion :: string
  latestVersion :: string
  updateType :: "update_type option"

text \<open>
  The candidate is \<open>None\<close> for \<open>null\<close> or \<open>undefined\<close>.  \<open>!latestVersion\<close> is true for
  these and for the empty string, the only falsy string.  The \<open>try\<close> block guards
  \<open>compareVersions\<close> and \<open>determineUpdateType\<close>; on strings neither can throw, so the
  \<open>catch\<close> branch has no counterpart here.
\<close>

definition detectUpdate :: "string \<Rightarrow> string option \<Rightarrow> verdict option" where
  "detectUpdate current latest =
     (case latest of
        None \<Rightarrow> None
      | Some l \<Rightarrow>
          if l = [] then None
          else if 0 < compareVersions l current then
            Some \<lparr>hasUpdate = True, currentVersion = current, latestVersion = l,
                  updateType = Some (determineUpdateType current l)\<rparr>
          else
            Some \<lparr>hasUpdate = False, currentVersion = current, latestVersion = l,
                  updateType = None\<rparr>)"

section \<open>The image reference parser\<close>

text \<open>The object \<open>parseDockerImage\<close> returns; its \<open>currentVersion\<close> property is \<open>tag\<close> here.\<close>

record image =
  full :: string
  registry :: string
  namespace :: string
  repository :: string
  fullName :: string
  tag :: string
  isOfficial :: bool

text \<open>\<open>parts.join('/')\<close>\<close>

fun joinSlash :: "string list \<Rightarrow> string" where
  "joinSlash [] = []"
| "joinSlash [p] = p"
| "joinSlash (p # q # ps) = p @ CHR ''/'' # joinSlash (q # ps)"

definition isColon :: "char \<Rightarrow> bool" where
  "isColon c = (c = CHR '':'')"

definition isSlash :: "char \<Rightarrow> bool" where
  "isSlash c = (c = CHR ''/'')"

text \<open>
  The argument is a string (for any other type the function returns \<open>null\<close> at once).
  \<open>None\<close> is \<open>null\<close>.  The empty string is falsy and is refused first.  The three
  variables \<open>registry\<close>, \<open>namespace\<close> and \<open>repository\<close> start at their defaults and are
  assigned in the branch the number of segments selects; the triple is their final value.
\<close>

definition parseDockerImage :: "string \<Rightarrow> image option" where
  "parseDockerImage imageRef =
     (if imageRef = [] then None
      else if includesStr imageRef ''$$cap_'' then None
      else
        (case split_on isColon imageRef of
           [imageName, version] \<Rightarrow>
             (let imageParts = split_on isSlash imageName;
                  (reg, ns, repo) =
                    (if length imageParts = 1 then
                       (''docker.io'', ''library'', imageParts ! 0)
                     else if length imageParts = 2 then
                       (''docker.io'', imageParts ! 0, imageParts ! 1)
                     else if 3 \<le> length imageParts then
                       (imageParts ! 0, imageParts ! 1, joinSlash (drop 2 imageParts))
                     else (''docker.io'', ''library'', imageName))
              in Some \<lparr>full = imageRef, registry = reg, namespace = ns, repository = repo,
                       fullName = ns @ CHR ''/'' # repo, tag = version,
                       isOfficial = (ns = ''library'')\<rparr>)
         | _ \<Rightarrow> None))"

section \<open>The template variable resolver\<close>

text \<open>
  \<open>s.replace(pattern, replacement)\<close> with a string pattern replaces the first occurrence
  only.  In the replacement, \<open>$$\<close> stands for one dollar sign, \<open>$&\<close> for the matched text,
  \<open>$`\<close> for the text before the match and \<open>$'\<close> for the text after it; any other
  dollar sign stands for itself.
\<close>

fun getSubstitution :: "string \<Rightarrow> string \<Rightarrow> string \<Rightarrow> string \<Rightarrow> string" where
  "getSubstitution matched preceding following [] = []"
| "getSubstitution matched preceding following [c] = [c]"
| "getSubstitution matched preceding following (c # d # r) =
     (if c = CHR ''$'' \<and> d = CHR ''$'' then CHR ''$'' # getSubstitution matched preceding following r
      else if c = CHR ''$'' \<and> d = CHR ''&'' then matched @ getSubstitution matched preceding following r
      else if c = CHR ''$'' \<and> d = CHR 0x60 then preceding @ getSubstitution matched preceding following r
      else if c = CHR ''$'' \<and> d = CHR 0x27 then following @ getSubstitution matched preceding following r
      else c # getSubstitution matched preceding following (d # r))"

fun replaceFrom :: "string \<Rightarrow> string \<Rightarrow> string \<Rightarrow> string \<Rightarrow> string" where
  "replaceFrom preceding [] pat rep =
     (if pat = [] then preceding @ getSubstitution pat preceding [] rep else preceding)"
| "replaceFrom preceding (c # cs) pat rep =
     (if startsWith (c # cs) pat then
        preceding @ getSubstitution pat preceding (drop (length pat) (c # cs)) rep
          @ drop (length pat) (c # cs)
      else replaceFrom (preceding @ [c]) cs pat rep)"

definition replace :: "string \<Rightarrow> string \<Rightarrow> string \<Rightarrow> string" where
  "replace s pat rep = replaceFrom [] s pat rep"

text \<open>
  The loop \<open>for (const [varName, varValue] of Object.entries(variables))\<close>; the list is
  \<open>Object.entries(variables)\<close>, the variable ids that have a truthy default value, in the
  object's iteration order.
\<close>

fun substituteAll :: "string \<Rightarrow> (string \<times> string) list \<Rightarrow> string" where
  "substituteAll resolvedImage [] = resolvedImage"
| "substituteAll resolvedImage ((varName, varValue) # rest) =
     substituteAll (replace resolvedImage varName varValue) rest"

text \<open>\<open>resolvedImage\<close> as it stands when the check for a remaining \<open>$$\<close> is reached.\<close>

definition resolveImage :: "string \<Rightarrow> (string \<times> string) list \<Rightarrow> string" where
  "resolveImage imageRef variables =
     (if includesStr imageRef ''$$'' then substituteAll imageRef variables else imageRef)"

text \<open>
  One entry of \<open>services\<close>.  The script spreads the properties of the parsed image into
  the same object; here they are the field \<open>parsed\<close>.
\<close>

record resolved_service =
  serviceName :: string
  originalImage :: string
  resolvedImage :: string
  hasVariables :: bool
  parsed :: image

definition isMainService :: "string \<Rightarrow> string \<Rightarrow> bool" where
  "isMainService appBaseName name =
     (name = ''$$cap_appname'' \<or> name = ''$$cap_appname-'' @ appBaseName)"

text \<open>
  The body of the loop over \<open>Object.entries(data.services)\<close> for one service: its name and
  its \<open>image\<close> property (\<open>None\<close> when the service has none).  \<open>None\<close> is \<open>continue\<close>.
\<close>

definition resolveService ::
  "string \<Rightarrow> (string \<times> string) list \<Rightarrow> string \<times> string option \<Rightarrow> resolved_service option" where
  "resolveService appBaseName variables entry =
     (case snd entry of
        None \<Rightarrow> None
      | Some imageRef \<Rightarrow>
          if imageRef = [] then None
          else if \<not> isMainService appBaseName (fst entry) then None
          else
            (let hasVars = includesStr imageRef ''$$'';
                 resolved = resolveImage imageRef variables
             in if hasVars \<and> includesStr resolved ''$$'' then None
                else
                  (case parseDockerImage resolved of
                     None \<Rightarrow> None
                   | Some p \<Rightarrow>
                       Some \<lparr>serviceName = fst entry, originalImage = imageRef,
                             resolvedImage = resolved, hasVariables = hasVars, parsed = p\<rparr>)))"

text \<open>The services \<open>extractAppConfig\<close> returns, in the order it pushed them.\<close>

fun extractServices ::
  "string \<Rightarrow> (string \<times> string) list \<Rightarrow> (string \<times> string option) list \<Rightarrow> resolved_service list" where
  "extractServices appBaseName variables [] = []"
| "extractServices appBaseName variables (entry # entries) =
     (case resolveService appBaseName variables entry of
        None \<Rightarrow> extractServices appBaseName variables entries
      | Some s \<Rightarrow> s # extractServices appBaseName variables entries)"

section \<open>The comparison algorithm in the specification's words\<close>

text \<open>
  The specification describes the comparator as an algorithm on token sequences.  It is
  written down here as the specification words it, with the rule that turns a piece of
  the version string into a token left as a parameter, so that it can be set beside
  \<open>compareVersions\<close>.
\<close>

datatype token = Numeric int | Text string

text \<open>A numeric token paired with a string token compares as its string form.\<close>

fun tokenText :: "token \<Rightarrow> string" where
  "tokenText (Numeric n) = toString (Num n)"
| "tokenText (Text s) = s"

text \<open>
  One position: numeric against numeric compares numerically, any other pair compares as
  strings.  The result is \<open>-1\<close>, \<open>0\<close> or \<open>1\<close> for less, equal, greater.
\<close>

fun compareTokens :: "token \<Rightarrow> token \<Rightarrow> int" where
  "compareTokens (Numeric a) (Numeric b) = (if a < b then - 1 else if b < a then 1 else 0)"
| "compareTokens x y =
     (if str_lt (tokenText x) (tokenText y) then - 1
      else if str_lt (tokenText y) (tokenText x) then 1
      else 0)"

text \<open>
  Position by position up to the longer sequence, a missing token on the shorter side
  counting as the number \<open>0\<close>; the first position that differs decides, and \<open>0\<close> is the
  result when none does.
\<close>

fun comparePositions :: "token list \<Rightarrow> token list \<Rightarrow> int" where
  "comparePositions [] [] = 0"
| "comparePositions (x # xs) [] =
     (if compareTokens x (Numeric 0) = 0 then comparePositions xs []
      else compareTokens x (Numeric 0))"
| "comparePositions [] (y # ys) =
     (if compareTokens (Numeric 0) y = 0 then comparePositions [] ys
      else compareTokens (Numeric 0) y)"
| "comparePositions (x # xs) (y # ys) =
     (if compareTokens x y = 0 then comparePositions xs ys else compareTokens x y)"

text \<open>
  Equal strings give \<open>0\<close> before any parsing; otherwise one leading \<open>v\<close> is stripped from
  each input, the rest is split on \<open>.\<close> or \<open>-\<close>, and the token sequences are compared.
\<close>

definition specifiedCompare :: "(string \<Rightarrow> token) \<Rightarrow> string \<Rightarrow> string \<Rightarrow> int" where
  "specifiedCompare tokenOf a b =
     (if a = b then 0
      else comparePositions (map tokenOf (split_on dotOrDash (stripV a)))
             (map tokenOf (split_on dotOrDash (stripV b))))"

text \<open>
  The specification's token rule: a purely numeric piece (decimal digits only, at least
  one) is the integer it spells; any other piece is kept as a string token.
\<close>

definition isDecimalDigit :: "char \<Rightarrow> bool" where
  "isDecimalDigit c = (48 \<le> (of_char c :: nat) \<and> (of_char c :: nat) \<le> 57)"

definition purelyNumeric :: "string \<Rightarrow> bool" where
  "purelyNumeric p = (p \<noteq> [] \<and> list_all isDecimalDigit p)"

definition pureToken :: "string \<Rightarrow> token" where
  "pureToken p = (if purelyNumeric p then Numeric (int (digitsValue 10 p)) else Text p)"

text \<open>
  The token rule of the script's design: \<open>parseInt\<close> reads an integer from the start of
  the piece (after white space and a sign, with \<open>0x\<close> for hexadecimal, whatever follows
  the digits), and the piece is that number; a piece from which \<open>parseInt\<close> reads no
  integer is kept as a string token.
\<close>

definition leadingIntToken :: "string \<Rightarrow> token" where
  "leadingIntToken p = (case parseInt p of Num n \<Rightarrow> Numeric n | _ \<Rightarrow> Text p)"

text \<open>The pieces of a version string: one leading \<open>v\<close> stripped, split on \<open>.\<close> or \<open>-\<close>.\<close>

definition pieces :: "string \<Rightarrow> string list" where
  "pieces v = split_on dotOrDash (stripV v)"

text \<open>
  The version strings the comparison with the specified algorithm is stated for.  A piece
  is plain when it is not empty and \<open>parseInt\<close> reads from it no integer, or the integer
  zero from the piece \<open>0\<close> itself, or an integer other than zero of magnitude below
  \<open>2 ^ 53\<close>.  Left out are the pieces on which \<open>||\<close> in the script acts on a falsy value
  that is not a missing one (the empty piece, and the spellings of zero, of which only
  \<open>0\<close> itself behaves as the number), and the integers that a double does not hold
  exactly.
\<close>

definition plainPiece :: "string \<Rightarrow> bool" where
  "plainPiece p =
     (p \<noteq> [] \<and>
      (case parseInt p of
         Num n \<Rightarrow> (n = 0 \<and> p = ''0'') \<or> (n \<noteq> 0 \<and> \<bar>n\<bar> < 2 ^ 53)
       | _ \<Rightarrow> True))"

definition plainVersion :: "string \<Rightarrow> bool" where
  "plainVersion v = list_all plainPiece (pieces v)"

text \<open>
  Auxiliary: the value the script's loop finds at a position that holds the piece \<open>p\<close>,
  that is \<open>(parseInt(p) || p) || 0\<close>, as a token.
\<close>

definition zeroOrText :: "string \<Rightarrow> token" where
  "zeroOrText p = (if p = [] then Numeric 0 else Text p)"

definition scriptToken :: "string \<Rightarrow> token" where
  "scriptToken p =
     (case parseInt p of
        Num n \<Rightarrow> if n = 0 then zeroOrText p else Numeric n
      | _ \<Rightarrow> zeroOrText p)"

text \<open>Auxiliary: the value a token stands for, and the token at a position.\<close>

fun valueOf :: "token \<Rightarrow> jsval" where
  "valueOf (Numeric n) = Num n"
| "valueOf (Text s) = Str s"

definition tokenAt :: "token list \<Rightarrow> nat \<Rightarrow> token" where
  "tokenAt xs i = (if i < length xs then xs ! i else Numeric 0)"

text \<open>
  Auxiliary: the token the script holds for a piece and the token of the design compare
  alike when they are the same token, or the string \<open>0\<close> and the number \<open>0\<close>; no token of
  a piece is a negative number.
\<close>

fun notNegative :: "token \<Rightarrow> bool" where
  "notNegative (Numeric n) = (0 \<le> n)"
| "notNegative (Text s) = True"

definition alike :: "token \<Rightarrow> token \<Rightarrow> bool" where
  "alike s d = (notNegative d \<and> (s = d \<or> (s = Text ''0'' \<and> d = Numeric 0)))"

section \<open>The classifier in the specification's words\<close>

text \<open>
  The specification has each of the first three positions default to \<open>0\<close> when the
  position is missing or non-numeric.  \<open>numericParts\<close> already turns a non-numeric piece
  into \<open>0\<close>; \<open>positionOrZero\<close> adds the default for a missing position.
\<close>

definition positionOrZero :: "jsval list \<Rightarrow> nat \<Rightarrow> jsval" where
  "positionOrZero parts i = js_or (at parts i) (Num 0)"

definition specifiedUpdateType :: "string \<Rightarrow> string \<Rightarrow> update_type" where
  "specifiedUpdateType current latest =
     (let currentParts = numericParts current;
          latestParts = numericParts latest
      in if num_gt (positionOrZero latestParts 0) (positionOrZero currentParts 0) then Major
         else if num_gt (positionOrZero latestParts 1) (positionOrZero currentParts 1) then Minor
         else if num_gt (positionOrZero latestParts 2) (positionOrZero currentParts 2) then Patch
         else Other)"

section \<open>Properties of the comparator\<close>

lemma split_on_not_Nil: "split_on sep s \<noteq> []"
  by (induction s) (auto split: list.splits)

text \<open>No piece of a split holds a separator.\<close>

lemma split_on_pieces:
  "p \<in> set (split_on sep s) \<Longrightarrow> x \<in> set p \<Longrightarrow> \<not> sep x"
proof (induction s arbitrary: p)
  case Nil
  then show ?case by simp
next
  case (Cons a s)
  show ?case
  proof (cases "sep a")
    case True
    with Cons show ?thesis by auto
  next
    case False
    obtain q qs where q: "split_on sep s = q # qs"
      by (cases "split_on sep s") (auto simp: split_on_not_Nil)
    with False Cons.prems have "p = a # q \<or> p \<in> set qs" by simp
    then show ?thesis
    proof
      assume "p = a # q"
      with Cons.prems(2) have "x = a \<or> x \<in> set q" by simp
      then show ?thesis using False Cons.IH [of q] q by auto
    next
      assume "p \<in> set qs"
      then show ?thesis using Cons.IH [of p] Cons.prems(2) q by simp
    qed
  qed
qed

lemma compareLoop_range:
  "compareLoop parts1 parts2 maxLen i = - 1 \<or> compareLoop parts1 parts2 maxLen i = 0
   \<or> compareLoop parts1 parts2 maxLen i = 1"
proof (induction parts1 parts2 maxLen i rule: compareLoop.induct)
  case (1 parts1 parts2 maxLen i)
  show ?case
    using "1.IH" by (subst (1 2 3) compareLoop.simps) (auto simp: Let_def)
qed

text \<open>
  Claim C7.  For every pair of strings, \<open>compareVersions\<close> returns, and what it returns
  is \<open>-1\<close>, \<open>0\<close> or \<open>1\<close>.  The function is total (the loop's index rises to \<open>maxLen\<close>,
  which is its termination measure) and no operation in it can raise on strings, so the
  model has no error result for it.
\<close>

theorem compareVersions_total_range:
  "compareVersions a b = - 1 \<or> compareVersions a b = 0 \<or> compareVersions a b = 1"
  unfolding compareVersions_def Let_def using compareLoop_range by simp

subsection \<open>Antisymmetry\<close>

lemma str_lt_asym: "str_lt a b \<Longrightarrow> \<not> str_lt b a"
  by (induction a b rule: str_lt.induct) (auto split: if_splits)

lemma num_gt_asym: "num_gt x y \<Longrightarrow> \<not> num_gt y x"
  by (cases "(x, y)" rule: num_gt.cases) auto

lemma compareLoop_swap:
  "compareLoop parts2 parts1 maxLen i = - compareLoop parts1 parts2 maxLen i"
proof (induction parts1 parts2 maxLen i rule: compareLoop.induct)
  case (1 parts1 parts2 maxLen i)
  show ?case
    using "1.IH"
    by (subst (1 2) compareLoop.simps) (auto simp: Let_def dest: str_lt_asym num_gt_asym)
qed

text \<open>
  Claim C8.  Swapping the arguments of \<open>compareVersions\<close> negates the result, for every
  pair of version strings.
\<close>

theorem compareVersions_antisymmetric:
  "compareVersions a b = - compareVersions b a"
proof (cases "a = b")
  case True
  then show ?thesis by (simp add: compareVersions_def)
next
  case False
  then have "b \<noteq> a" by simp
  with False show ?thesis
    unfolding compareVersions_def Let_def
    by (simp only: if_False max.commute [of "length (versionParts (stripV b))"])
      (rule compareLoop_swap)
qed

subsection \<open>The script against the specified algorithm\<close>

lemma parseInt_number: "is_number (parseInt p)"
  by (simp add: parseInt_def Let_def)

lemma part_value:
  "js_or (js_or (parseInt p) (Str p)) (Num 0) = valueOf (scriptToken p)"
  using parseInt_number [of p]
  by (cases "parseInt p") (auto simp: js_or_def scriptToken_def zeroOrText_def)

lemma at_versionParts:
  "js_or (at (versionParts v) i) (Num 0) =
   valueOf (tokenAt (map scriptToken (split_on dotOrDash v)) i)"
  by (simp add: at_def versionParts_def tokenAt_def part_value) (simp add: js_or_def)

text \<open>One turn of the loop decides as \<open>compareTokens\<close> does, or goes on (\<open>k\<close>).\<close>

lemma step_tokens:
  "(if is_number (valueOf x) \<and> is_number (valueOf y) then
      (if num_gt (valueOf x) (valueOf y) then 1
       else if num_gt (valueOf y) (valueOf x) then - 1 else k)
    else
      (if str_lt (toString (valueOf y)) (toString (valueOf x)) then 1
       else if str_lt (toString (valueOf x)) (toString (valueOf y)) then - 1 else k))
   = (if compareTokens x y = 0 then k else compareTokens x y)"
  by (cases x; cases y) (auto dest: str_lt_asym)

lemma drop_tokenAt:
  "i < length xs \<Longrightarrow> drop i xs = tokenAt xs i # drop (Suc i) xs"
  by (simp add: tokenAt_def Cons_nth_drop_Suc)

text \<open>
  The loop from index \<open>i\<close> computes what \<open>comparePositions\<close> computes on the two token
  sequences from position \<open>i\<close> on; induction on the distance to \<open>maxLen\<close>.
\<close>

lemma compareLoop_positions:
  assumes p1: "\<And>i. js_or (at parts1 i) (Num 0) = valueOf (tokenAt xs i)"
    and p2: "\<And>i. js_or (at parts2 i) (Num 0) = valueOf (tokenAt ys i)"
  shows "compareLoop parts1 parts2 (max (length xs) (length ys)) i =
         comparePositions (drop i xs) (drop i ys)"
proof (induction "max (length xs) (length ys) - i" arbitrary: i)
  case 0
  then have "drop i xs = []" "drop i ys = []" "\<not> i < max (length xs) (length ys)"
    by auto
  then show ?case
    by (subst compareLoop.simps) simp
next
  case (Suc d)
  then have lt: "i < max (length xs) (length ys)" by linarith
  from Suc have "d = max (length xs) (length ys) - Suc i" by linarith
  then have IH: "compareLoop parts1 parts2 (max (length xs) (length ys)) (Suc i) =
                 comparePositions (drop (Suc i) xs) (drop (Suc i) ys)"
    by (rule Suc.hyps(1))
  have unfold: "compareLoop parts1 parts2 (max (length xs) (length ys)) i =
        (if compareTokens (tokenAt xs i) (tokenAt ys i) = 0
         then comparePositions (drop (Suc i) xs) (drop (Suc i) ys)
         else compareTokens (tokenAt xs i) (tokenAt ys i))"
    by (subst compareLoop.simps, simp only: lt if_True p1 p2 Let_def IH) (rule step_tokens)
  consider (both) "i < length xs" "i < length ys"
    | (left) "i < length xs" "length ys \<le> i"
    | (right) "length xs \<le> i" "i < length ys"
    using lt by linarith
  then show ?case
  proof cases
    case both
    then show ?thesis
      by (subst unfold) (simp add: drop_tokenAt [of i xs] drop_tokenAt [of i ys])
  next
    case left
    then have "drop i ys = []" "drop (Suc i) ys = []" "tokenAt ys i = Numeric 0"
      by (simp_all add: tokenAt_def)
    with left show ?thesis
      by (subst unfold) (simp add: drop_tokenAt [of i xs])
  next
    case right
    then have "drop i xs = []" "drop (Suc i) xs = []" "tokenAt xs i = Numeric 0"
      by (simp_all add: tokenAt_def)
    with right show ?thesis
      by (subst unfold) (simp add: drop_tokenAt [of i ys])
  qed
qed

text \<open>The loop on the two arrays is the position-by-position comparison of their tokens.\<close>

lemma compareVersions_scriptToken:
  "compareVersions a b = specifiedCompare scriptToken a b"
proof -
  have "compareLoop (versionParts (stripV a)) (versionParts (stripV b))
          (max (length (map scriptToken (split_on dotOrDash (stripV a))))
               (length (map scriptToken (split_on dotOrDash (stripV b))))) 0 =
        comparePositions (drop 0 (map scriptToken (split_on dotOrDash (stripV a))))
          (drop 0 (map scriptToken (split_on dotOrDash (stripV b))))"
    by (rule compareLoop_positions) (rule at_versionParts)+
  then show ?thesis
    by (simp add: compareVersions_def specifiedCompare_def Let_def versionParts_def)
qed

text \<open>
  Claim C1, as stated, fails.  With the specification's token rule (a piece that is not
  purely numeric is kept as a string, a purely numeric one is its integer) the specified
  algorithm and the script disagree.  On \<open>3.10rc1\<close> against \<open>3.9\<close> the script reads the
  piece \<open>10rc1\<close> as the number \<open>10\<close>, as \<open>parseInt\<close> does, and answers \<open>1\<close> where the
  algorithm compares the strings \<open>10rc1\<close> and \<open>9\<close> and answers \<open>-1\<close>.  On \<open>1.00\<close> against
  \<open>1.0\<close> the script answers \<open>1\<close> where the algorithm answers \<open>0\<close>: \<open>parseInt\<close> of each
  second piece is \<open>0\<close>, which is falsy, so \<open>parseInt(p) || p\<close> keeps both as strings.
\<close>

theorem compareVersions_pure_tokens_counterexample:
  "compareVersions ''1.00'' ''1.0'' = 1
   \<and> specifiedCompare pureToken ''1.00'' ''1.0'' = 0
   \<and> compareVersions ''3.10rc1'' ''3.9'' = 1
   \<and> specifiedCompare pureToken ''3.10rc1'' ''3.9'' = - 1"
  by code_simp

subsection \<open>The script against the algorithm with the designed token rule\<close>

lemma natToString_zero: "natToString 0 = ''0''"
  by code_simp

text \<open>The decimal form of a positive number starts with a digit above \<open>0\<close>.\<close>

lemma natToString_pos:
  "0 < n \<Longrightarrow> \<exists>c r. natToString n = c # r \<and> 48 < (of_char c :: nat)"
proof (induction n rule: natToString.induct)
  case (1 n)
  show ?case
  proof (cases "n < 10")
    case True
    with "1.prems" show ?thesis
      by (subst natToString.simps) simp
  next
    case False
    then have "0 < n div 10" by simp
    with "1.IH" False obtain c r where "natToString (n div 10) = c # r" "48 < (of_char c :: nat)"
      by blast
    with False show ?thesis
      by (subst natToString.simps) simp
  qed
qed

lemma zero_before_positive:
  assumes "0 < n"
  shows "str_lt ''0'' (natToString n)" and "\<not> str_lt (natToString n) ''0''"
proof -
  from natToString_pos [OF assms] obtain c r where
    c: "natToString n = c # r" "48 < (of_char c :: nat)" by blast
  then have "c \<noteq> CHR ''0''" by auto
  with c show "str_lt ''0'' (natToString n)" "\<not> str_lt (natToString n) ''0''"
    by auto
qed

text \<open>
  The string \<open>0\<close>, which is what the script holds for the piece \<open>0\<close>, compares with every
  token that is not negative as the number \<open>0\<close> does.
\<close>

lemma zero_text_numeric:
  assumes "0 \<le> n"
  shows "compareTokens (Text ''0'') (Numeric n) = compareTokens (Numeric 0) (Numeric n)"
    and "compareTokens (Numeric n) (Text ''0'') = compareTokens (Numeric n) (Numeric 0)"
proof -
  consider "n = 0" | "0 < nat n" using assms by fastforce
  then have "compareTokens (Text ''0'') (Numeric n) = compareTokens (Numeric 0) (Numeric n)
     \<and> compareTokens (Numeric n) (Text ''0'') = compareTokens (Numeric n) (Numeric 0)"
  proof cases
    case 1
    then show ?thesis by (simp add: natToString_zero)
  next
    case 2
    from zero_before_positive [OF 2] 2 assms show ?thesis by simp
  qed
  then show "compareTokens (Text ''0'') (Numeric n) = compareTokens (Numeric 0) (Numeric n)"
    and "compareTokens (Numeric n) (Text ''0'') = compareTokens (Numeric n) (Numeric 0)"
    by simp_all
qed

lemma zero_text_left:
  assumes "notNegative t"
  shows "compareTokens (Text ''0'') t = compareTokens (Numeric 0) t"
proof (cases t)
  case (Numeric n)
  with assms have "0 \<le> n" by simp
  then show ?thesis unfolding Numeric by (rule zero_text_numeric(1))
next
  case (Text s)
  then show ?thesis by (simp add: natToString_zero)
qed

lemma zero_text_right:
  assumes "notNegative t"
  shows "compareTokens t (Text ''0'') = compareTokens t (Numeric 0)"
proof (cases t)
  case (Numeric n)
  with assms have "0 \<le> n" by simp
  then show ?thesis unfolding Numeric by (rule zero_text_numeric(2))
next
  case (Text s)
  then show ?thesis by (simp add: natToString_zero)
qed

text \<open>A piece without a minus sign is not read as a negative number.\<close>

lemma parseInt_not_negative:
  assumes "CHR ''-'' \<notin> set p" and "parseInt p = Num n"
  shows "0 \<le> n"
proof -
  have "set (dropWhile isWhiteSpace p) \<subseteq> set p"
    by (auto dest: set_dropWhileD)
  with assms(1) have "CHR ''-'' \<notin> set (dropWhile isWhiteSpace p)" by blast
  moreover have "(case s1 of c # r \<Rightarrow> if c = CHR ''-'' then - 1 else 1 | [] \<Rightarrow> (1 :: int)) = 1"
    if "CHR ''-'' \<notin> set s1" for s1
    using that by (cases s1) auto
  ultimately have "(case dropWhile isWhiteSpace p of
               c # r \<Rightarrow> if c = CHR ''-'' then - 1 else 1 | [] \<Rightarrow> (1 :: int)) = 1"
    by blast
  with assms(2) show ?thesis
    by (auto simp: parseInt_def Let_def split: if_splits)
qed

lemma piece_no_dash: "p \<in> set (pieces v) \<Longrightarrow> CHR ''-'' \<notin> set p"
  using split_on_pieces [of p dotOrDash "stripV v" "CHR ''-''"]
  by (auto simp: pieces_def dotOrDash_def)

lemma alike_tokens:
  assumes "alike s d" and "alike s' d'"
  shows "compareTokens s s' = compareTokens d d'"
proof -
  from assms have n: "notNegative d" "notNegative d'" by (simp_all add: alike_def)
  consider (same) "s = d" "s' = d'"
    | (right) "s = d" "s' = Text ''0''" "d' = Numeric 0"
    | (left) "s = Text ''0''" "d = Numeric 0" "s' = d'"
    | (both) "s = Text ''0''" "d = Numeric 0" "s' = Text ''0''" "d' = Numeric 0"
    using assms unfolding alike_def by blast
  then show ?thesis
  proof cases
    case same
    then show ?thesis by simp
  next
    case right
    then show ?thesis using zero_text_right [OF n(1)] by simp
  next
    case left
    then show ?thesis using zero_text_left [OF n(2)] by simp
  next
    case both
    then show ?thesis by simp
  qed
qed

lemma alike_zero: "alike (Numeric 0) (Numeric 0)"
  by (simp add: alike_def)

text \<open>On a plain piece the script's token and the designed one compare alike.\<close>

lemma plain_alike:
  assumes "plainPiece p" and "CHR ''-'' \<notin> set p"
  shows "alike (scriptToken p) (leadingIntToken p)"
proof (cases "parseInt p")
  case (Num n)
  with assms(2) have "0 \<le> n" by (simp add: parseInt_not_negative)
  with Num assms(1) show ?thesis
    by (auto simp: alike_def plainPiece_def scriptToken_def leadingIntToken_def zeroOrText_def)
next
  case Undefined
  with assms(1) show ?thesis
    by (auto simp: alike_def plainPiece_def scriptToken_def leadingIntToken_def zeroOrText_def)
next
  case NaN
  with assms(1) show ?thesis
    by (auto simp: alike_def plainPiece_def scriptToken_def leadingIntToken_def zeroOrText_def)
next
  case (Str x)
  with assms(1) show ?thesis
    by (auto simp: alike_def plainPiece_def scriptToken_def leadingIntToken_def zeroOrText_def)
qed

lemma comparePositions_alike:
  assumes "list_all2 alike xs xs'" and "list_all2 alike ys ys'"
  shows "comparePositions xs ys = comparePositions xs' ys'"
  using assms
proof (induction xs ys arbitrary: xs' ys' rule: comparePositions.induct)
  case 1
  then show ?case by simp
next
  case (2 x xs)
  then obtain d ds where d: "xs' = d # ds" "alike x d" "list_all2 alike xs ds" "ys' = []"
    by (auto simp: list_all2_Cons1)
  have t: "compareTokens x (Numeric 0) = compareTokens d (Numeric 0)"
    using alike_tokens [OF d(2) alike_zero] .
  from 2 d t show ?case by auto
next
  case (3 y ys)
  then obtain d ds where d: "ys' = d # ds" "alike y d" "list_all2 alike ys ds" "xs' = []"
    by (auto simp: list_all2_Cons1)
  have t: "compareTokens (Numeric 0) y = compareTokens (Numeric 0) d"
    using alike_tokens [OF alike_zero d(2)] .
  from 3 d t show ?case by auto
next
  case (4 x xs y ys)
  then obtain d ds e es where d: "xs' = d # ds" "alike x d" "list_all2 alike xs ds"
    "ys' = e # es" "alike y e" "list_all2 alike ys es"
    by (auto simp: list_all2_Cons1)
  have t: "compareTokens x y = compareTokens d e"
    using alike_tokens [OF d(2) d(5)] .
  from 4 d t show ?case by auto
qed

lemma plainVersion_alike:
  assumes "plainVersion v"
  shows "list_all2 alike (map scriptToken (pieces v)) (map leadingIntToken (pieces v))"
proof -
  have "alike (scriptToken p) (leadingIntToken p)" if "p \<in> set (pieces v)" for p
    using that assms piece_no_dash [of p v] plain_alike [of p]
    by (auto simp: plainVersion_def list_all_iff)
  then show ?thesis
    by (simp add: list_all2_map1 list_all2_map2 list_all2_same)
qed

text \<open>
  Claim C1, amended.  For every pair of version strings whose pieces are plain (none
  empty, none a spelling of zero other than \<open>0\<close> itself, every number read below
  \<open>2 ^ 53\<close>) \<open>compareVersions\<close> is the specified algorithm (equal strings give \<open>0\<close>; one
  leading \<open>v\<close> stripped; split on \<open>.\<close> or \<open>-\<close>; a missing trailing token counts as \<open>0\<close>;
  numeric against numeric compares numerically and any other pair as strings; the first
  position that differs decides) with the token rule of the script's design: a piece is
  the integer \<open>parseInt\<close> reads from its start, whatever follows the digits, and a piece
  from which \<open>parseInt\<close> reads no integer is kept as a string.  What the script returns
  when a piece is not plain is not part of the statement.
\<close>

theorem compareVersions_refines_specified:
  assumes "plainVersion a" and "plainVersion b"
  shows "compareVersions a b = specifiedCompare leadingIntToken a b"
proof -
  have "comparePositions (map scriptToken (pieces a)) (map scriptToken (pieces b)) =
        comparePositions (map leadingIntToken (pieces a)) (map leadingIntToken (pieces b))"
    using assms by (intro comparePositions_alike plainVersion_alike)
  then show ?thesis
    by (simp add: compareVersions_scriptToken specifiedCompare_def pieces_def)
qed

text \<open>
  Claim C1, witness: \<open>v1.10.0-rc1\<close> against \<open>1.9.0\<close>, and \<open>3.10rc1\<close> against \<open>3.9\<close>; all
  four are plain, and the second position decides both comparisons numerically.
\<close>

theorem compareVersions_refines_specified_witness:
  "plainVersion ''v1.10.0-rc1'' \<and> plainVersion ''1.9.0''
   \<and> compareVersions ''v1.10.0-rc1'' ''1.9.0'' = 1
   \<and> specifiedCompare leadingIntToken ''v1.10.0-rc1'' ''1.9.0'' = 1
   \<and> plainVersion ''3.10rc1'' \<and> plainVersion ''3.9''
   \<and> compareVersions ''3.10rc1'' ''3.9'' = 1"
proof -
  have a: "plainVersion ''v1.10.0-rc1''" and b: "plainVersion ''1.9.0''"
    and c: "plainVersion ''3.10rc1''" and d: "plainVersion ''3.9''"
    by code_simp+
  have s: "specifiedCompare leadingIntToken ''v1.10.0-rc1'' ''1.9.0'' = 1"
    "specifiedCompare leadingIntToken ''3.10rc1'' ''3.9'' = 1"
    by code_simp+
  from compareVersions_refines_specified [OF a b] compareVersions_refines_specified [OF c d]
    a b c d s
  show ?thesis by simp
qed

section \<open>Properties of the classifier\<close>

text \<open>
  Claim C2 does not hold of the script.  The classifier defaults a non-numeric position
  to \<open>0\<close> but not a missing one: a position past the end of either array reads
  \<open>undefined\<close>, and the comparison with it is false.  For the current version \<open>1.2\<close> and
  the candidate \<open>1.2.3\<close>, which the comparator orders after it, the script answers
  \<open>other\<close> where the claim (position 2 of the current version defaulting to \<open>0\<close>) gives
  \<open>patch\<close>; likewise \<open>1\<close> and \<open>1.1\<close> give \<open>other\<close>, not \<open>minor\<close>.  The comparator itself
  writes \<open>parts[i] || 0\<close> for a missing position.
\<close>

theorem determineUpdateType_missing_position:
  "compareVersions ''1.2.3'' ''1.2'' = 1
   \<and> determineUpdateType ''1.2'' ''1.2.3'' = Other
   \<and> specifiedUpdateType ''1.2'' ''1.2.3'' = Patch
   \<and> compareVersions ''1.1'' ''1'' = 1
   \<and> determineUpdateType ''1'' ''1.1'' = Other
   \<and> specifiedUpdateType ''1'' ''1.1'' = Minor"
  by code_simp

text \<open>
  The two agree whenever both versions have at least three pieces: the script and the
  specified classifier differ only where a position is missing.
\<close>

lemma numericParts_at:
  "i < length (numericParts v) \<Longrightarrow>
   positionOrZero (numericParts v) i = at (numericParts v) i"
  using parseInt_number [of "split_on dotOrDash (stripV v) ! i"]
  by (cases "parseInt (split_on dotOrDash (stripV v) ! i)")
     (auto simp: positionOrZero_def at_def numericParts_def js_or_def)

lemma determineUpdateType_three_positions:
  assumes "3 \<le> length (numericParts current)" and "3 \<le> length (numericParts latest)"
  shows "determineUpdateType current latest = specifiedUpdateType current latest"
proof -
  have "positionOrZero (numericParts current) i = at (numericParts current) i"
    "positionOrZero (numericParts latest) i = at (numericParts latest) i" if "i < 3" for i
    using that assms by (simp_all add: numericParts_at)
  then show ?thesis
    by (simp add: determineUpdateType_def specifiedUpdateType_def Let_def)
qed

section \<open>Properties of the update detector\<close>

text \<open>
  Claim C5, as stated, fails for one present candidate: the empty string is a string
  value, not an absent one, and the detector returns no verdict for it.
\<close>

theorem detectUpdate_empty_candidate_counterexample:
  "detectUpdate ''1.0.0'' (Some []) = None"
  by code_simp

text \<open>
  Claim C5, amended.  For every current version string and every non-empty candidate
  version string the detector returns a verdict; its \<open>hasUpdate\<close> is true exactly when
  the comparator orders the candidate strictly after the current version; it carries an
  \<open>updateType\<close> exactly when \<open>hasUpdate\<close> is true; and it records the two versions.
\<close>

theorem detectUpdate_verdict:
  assumes "candidate \<noteq> []"
  shows "\<exists>v. detectUpdate current (Some candidate) = Some v
           \<and> hasUpdate v = (0 < compareVersions candidate current)
           \<and> (updateType v \<noteq> None) = hasUpdate v
           \<and> currentVersion v = current \<and> latestVersion v = candidate"
  using assms by (simp add: detectUpdate_def)

text \<open>Claim C5, witness: the candidate \<open>6.7.1\<close> for the current version \<open>6.7.0\<close>.\<close>

theorem detectUpdate_verdict_witness:
  "''6.7.1'' \<noteq> [] \<and> detectUpdate ''6.7.0'' (Some ''6.7.1'') =
     Some \<lparr>hasUpdate = True, currentVersion = ''6.7.0'', latestVersion = ''6.7.1'',
           updateType = Some Patch\<rparr>
   \<and> 0 < compareVersions ''6.7.1'' ''6.7.0''"
proof -
  have ne: "''6.7.1'' \<noteq> []" by simp
  have cmp: "compareVersions ''6.7.1'' ''6.7.0'' = 1" by code_simp
  have ty: "determineUpdateType ''6.7.0'' ''6.7.1'' = Patch" by code_simp
  from detectUpdate_verdict [OF ne, of "''6.7.0''"] obtain v where
    v: "detectUpdate ''6.7.0'' (Some ''6.7.1'') = Some v"
      "hasUpdate v = (0 < compareVersions ''6.7.1'' ''6.7.0'')"
    by blast
  have "detectUpdate ''6.7.0'' (Some ''6.7.1'') =
     Some \<lparr>hasUpdate = True, currentVersion = ''6.7.0'', latestVersion = ''6.7.1'',
           updateType = Some Patch\<rparr>"
    using v cmp ty by (simp add: detectUpdate_def)
  with ne cmp show ?thesis by simp
qed

text \<open>
  Claim C10, as stated, fails for the candidate \<open>"0"\<close>: in JavaScript the only falsy
  string is the empty one, so \<open>"0"\<close> passes the guard, is compared, and gets a verdict.
\<close>

theorem detectUpdate_zero_candidate_counterexample:
  "detectUpdate ''1.0.0'' (Some ''0'') =
     Some \<lparr>hasUpdate = False, currentVersion = ''1.0.0'', latestVersion = ''0'',
           updateType = None\<rparr>"
  by code_simp

text \<open>
  Claim C10, amended.  The detector returns the absent result exactly when the candidate
  is absent or is the empty string; so the empty string, though a present value, is
  treated as no candidate, and every other candidate, \<open>"0"\<close> among them, gets a verdict.
\<close>

theorem detectUpdate_absent_iff:
  "(detectUpdate current candidate = None) = (candidate = None \<or> candidate = Some [])"
  by (cases candidate) (simp_all add: detectUpdate_def)

text \<open>Claim C10, witness: the empty candidate and the candidate \<open>"0"\<close>.\<close>

theorem detectUpdate_absent_iff_witness:
  "detectUpdate ''1.0.0'' (Some []) = None \<and> detectUpdate ''1.0.0'' (Some ''0'') \<noteq> None"
  using detectUpdate_absent_iff [of "''1.0.0''" "Some []"]
    detectUpdate_absent_iff [of "''1.0.0''" "Some ''0''"]
  by simp

section \<open>Properties of the image reference parser\<close>

lemma length_split_on: "length (split_on sep s) = Suc (length (filter sep s))"
  by (induction s) (auto split: list.splits simp: split_on_not_Nil)

lemma split_on_Cons:
  "split_on sep s = p # ps \<Longrightarrow>
     (\<forall>x \<in> set p. \<not> sep x) \<and>
     (if ps = [] then s = p else \<exists>c rest. sep c \<and> s = p @ c # rest \<and> split_on sep rest = ps)"
proof (induction s arbitrary: p ps)
  case Nil
  then show ?case by simp
next
  case (Cons a s)
  show ?case
  proof (cases "sep a")
    case True
    with Cons.prems show ?thesis by (auto simp: split_on_not_Nil)
  next
    case False
    then obtain q qs where q: "split_on sep s = q # qs" "p = a # q" "ps = qs"
      using Cons.prems split_on_not_Nil [of sep s] by (auto split: list.splits)
    from Cons.IH [OF q(1)] q False show ?thesis by auto
  qed
qed

lemma split_on_two:
  assumes "split_on sep s = [a, b]"
  shows "\<exists>c. sep c \<and> s = a @ c # b \<and> (\<forall>x \<in> set a. \<not> sep x) \<and> (\<forall>x \<in> set b. \<not> sep x)"
proof -
  from split_on_Cons [OF assms] obtain c rest where
    r: "\<forall>x \<in> set a. \<not> sep x" "sep c" "s = a @ c # rest" "split_on sep rest = [b]"
    by auto
  from split_on_Cons [OF r(4)] have "rest = b" "\<forall>x \<in> set b. \<not> sep x" by auto
  with r show ?thesis by blast
qed

lemma last_split_on_empty:
  "last (split_on sep s) = [] \<Longrightarrow> s = [] \<or> sep (last s)"
  by (induction s) (auto split: list.splits if_splits simp: split_on_not_Nil)

lemma joinSlash_empty: "joinSlash ps = [] \<Longrightarrow> ps = [] \<or> ps = [[]]"
  by (induction ps rule: joinSlash.induct) auto

text \<open>Whichever branch fills \<open>repository\<close>, an empty result means an empty last segment.\<close>

lemma repository_last:
  assumes "ps \<noteq> []"
    and "(if length ps = 1 then ps ! 0
          else if length ps = 2 then ps ! 1
          else if 3 \<le> length ps then joinSlash (drop 2 ps)
          else name) = []"
  shows "last ps = []"
proof -
  consider "length ps = 1" | "length ps = 2" | "3 \<le> length ps"
  proof -
    from assms(1) have "0 < length ps" by simp
    then have "length ps = 1 \<or> length ps = 2 \<or> 3 \<le> length ps" by linarith
    then show ?thesis using that by blast
  qed
  then show ?thesis
  proof cases
    case 1
    with assms show ?thesis by (cases ps) auto
  next
    case 2
    with assms show ?thesis by (simp add: last_conv_nth)
  next
    case 3
    with assms have "joinSlash (drop 2 ps) = []" by auto
    then have "drop 2 ps = [] \<or> drop 2 ps = [[]]" by (rule joinSlash_empty)
    with 3 have d: "drop 2 ps = [[]]" by auto
    have "last ps = last (drop 2 ps)" using 3 by simp
    with d show ?thesis by simp
  qed
qed

text \<open>
  Claim C4, as stated, fails: the parser checks the number of colons and nothing else
  about the pieces, so it returns a reference with an empty tag for \<open>nginx:\<close> and one with
  an empty repository for \<open>:1.21\<close>.
\<close>

theorem parseDockerImage_empty_field_counterexample:
  "map_option tag (parseDockerImage ''nginx:'') = Some []
   \<and> map_option repository (parseDockerImage '':1.21'') = Some []"
  by code_simp

text \<open>
  Claim C4, amended.  For every input string the parser returns either the invalid
  marker or a reference all of whose fields are set from the input.  An input whose
  number of colons is not exactly one is invalid.  A reference is returned only for an
  input \<open>name:tag\<close> with no colon in \<open>name\<close> or \<open>tag\<close>; its tag is the text after the colon
  (empty when nothing follows the colon), and its repository is non-empty unless \<open>name\<close>
  is empty or ends with a slash.
\<close>

theorem parseDockerImage_amended:
  "(length (filter isColon s) \<noteq> 1 \<longrightarrow> parseDockerImage s = None) \<and>
   (\<forall>img. parseDockerImage s = Some img \<longrightarrow>
      (\<exists>name. s = name @ CHR '':'' # tag img
         \<and> CHR '':'' \<notin> set name \<and> CHR '':'' \<notin> set (tag img)
         \<and> full img = s
         \<and> fullName img = namespace img @ CHR ''/'' # repository img
         \<and> isOfficial img = (namespace img = ''library'')
         \<and> (repository img = [] \<longrightarrow> name = [] \<or> last name = CHR ''/'')))"
proof (intro conjI impI allI)
  assume "length (filter isColon s) \<noteq> 1"
  then have "length (split_on isColon s) \<noteq> 2" by (simp add: length_split_on)
  then show "parseDockerImage s = None"
    by (auto simp: parseDockerImage_def split: list.splits)
next
  fix img assume some: "parseDockerImage s = Some img"
  then obtain name version where sp: "split_on isColon s = [name, version]"
    by (auto simp: parseDockerImage_def split: list.splits if_splits)
  from split_on_two [OF sp] have s: "s = name @ CHR '':'' # version"
    "CHR '':'' \<notin> set name" "CHR '':'' \<notin> set version"
    by (auto simp: isColon_def)
  let ?ps = "split_on isSlash name"
  from some sp have img: "tag img = version" "full img = s"
    "fullName img = namespace img @ CHR ''/'' # repository img"
    "isOfficial img = (namespace img = ''library'')"
    "repository img = (if length ?ps = 1 then ?ps ! 0
          else if length ?ps = 2 then ?ps ! 1
          else if 3 \<le> length ?ps then joinSlash (drop 2 ?ps)
          else name)"
    by (auto simp: parseDockerImage_def Let_def split: if_splits prod.splits)
  have "name = [] \<or> last name = CHR ''/''" if "repository img = []"
  proof -
    from that img(5) have "last ?ps = []"
      using repository_last [of ?ps name] by (simp add: split_on_not_Nil)
    then show ?thesis using last_split_on_empty [of isSlash name] by (auto simp: isSlash_def)
  qed
  with s img show "\<exists>name. s = name @ CHR '':'' # tag img
         \<and> CHR '':'' \<notin> set name \<and> CHR '':'' \<notin> set (tag img)
         \<and> full img = s
         \<and> fullName img = namespace img @ CHR ''/'' # repository img
         \<and> isOfficial img = (namespace img = ''library'')
         \<and> (repository img = [] \<longrightarrow> name = [] \<or> last name = CHR ''/'')"
    by auto
qed

text \<open>
  Claim C4, witness: \<open>a:b:c\<close> has two colons and is invalid; \<open>bitnami/ghost:5.2.2\<close> is
  parsed, with a non-empty repository and the tag after the colon.
\<close>

theorem parseDockerImage_amended_witness:
  "length (filter isColon ''a:b:c'') \<noteq> 1 \<and> parseDockerImage ''a:b:c'' = None
   \<and> parseDockerImage ''bitnami/ghost:5.2.2'' =
       Some \<lparr>full = ''bitnami/ghost:5.2.2'', registry = ''docker.io'', namespace = ''bitnami'',
             repository = ''ghost'', fullName = ''bitnami/ghost'', tag = ''5.2.2'',
             isOfficial = False\<rparr>
   \<and> (\<exists>name. ''bitnami/ghost:5.2.2'' = name @ CHR '':'' # ''5.2.2'' \<and> CHR '':'' \<notin> set name)"
proof -
  have two: "length (filter isColon ''a:b:c'') \<noteq> 1" by code_simp
  have none: "parseDockerImage ''a:b:c'' = None"
    using parseDockerImage_amended [of "''a:b:c''"] two by blast
  have some: "parseDockerImage ''bitnami/ghost:5.2.2'' =
       Some \<lparr>full = ''bitnami/ghost:5.2.2'', registry = ''docker.io'', namespace = ''bitnami'',
             repository = ''ghost'', fullName = ''bitnami/ghost'', tag = ''5.2.2'',
             isOfficial = False\<rparr>"
    by code_simp
  have "\<exists>name. ''bitnami/ghost:5.2.2'' = name @ CHR '':'' # ''5.2.2'' \<and> CHR '':'' \<notin> set name"
    using parseDockerImage_amended [of "''bitnami/ghost:5.2.2''"] some by fastforce
  with two none some show ?thesis by blast
qed

lemma two_pieces: "length xs = 2 \<Longrightarrow> \<exists>a b. xs = [a, b]"
  by (cases xs; cases "tl xs") auto

text \<open>
  Claim C9, as stated, fails.  The placeholder marker of the templates, the one the
  resolver tests, is \<open>$$\<close>; the parser's guard looks for \<open>$$cap_\<close> only.  The reference
  \<open>nginx:$$version\<close> holds the marker and is parsed, the placeholder becoming its tag.
\<close>

theorem parseDockerImage_placeholder_counterexample:
  "includesStr ''nginx:$$version'' ''$$''
   \<and> map_option tag (parseDockerImage ''nginx:$$version'') = Some ''$$version''"
  by code_simp

text \<open>
  Claim C9, amended.  Every raw reference that contains \<open>$$cap_\<close>, the prefix of the
  template variables, is refused.  A \<open>$$\<close> that is not followed by \<open>cap_\<close> is no ground
  for refusal: the parser refuses a reference exactly when it is empty, contains
  \<open>$$cap_\<close>, or does not have exactly one colon.
\<close>

theorem parseDockerImage_invalid_iff:
  "(includesStr s ''$$cap_'' \<longrightarrow> parseDockerImage s = None) \<and>
   ((parseDockerImage s = None) =
    (s = [] \<or> includesStr s ''$$cap_'' \<or> length (filter isColon s) \<noteq> 1))"
proof (cases "s = [] \<or> includesStr s ''$$cap_''")
  case True
  then show ?thesis by (auto simp: parseDockerImage_def)
next
  case False
  show ?thesis
  proof (cases "length (filter isColon s) = 1")
    case True
    then have "length (split_on isColon s) = 2" by (simp add: length_split_on)
    then obtain a b where "split_on isColon s = [a, b]" using two_pieces by blast
    with False True show ?thesis
      by (simp add: parseDockerImage_def Let_def split: prod.splits)
  next
    case ne: False
    then have "length (split_on isColon s) \<noteq> 2" by (simp add: length_split_on)
    then have "parseDockerImage s = None"
      by (auto simp: parseDockerImage_def split: list.splits)
    with ne False show ?thesis by simp
  qed
qed

text \<open>
  Claim C9, witness: \<open>wordpress:$$cap_wp_version\<close> is refused; \<open>nginx:$$version\<close>, which
  is not empty, has no \<open>$$cap_\<close> and has one colon, is not.
\<close>

theorem parseDockerImage_invalid_iff_witness:
  "includesStr ''wordpress:$$cap_wp_version'' ''$$cap_''
   \<and> parseDockerImage ''wordpress:$$cap_wp_version'' = None
   \<and> includesStr ''nginx:$$version'' ''$$''
   \<and> parseDockerImage ''nginx:$$version'' \<noteq> None"
proof -
  have h: "includesStr ''wordpress:$$cap_wp_version'' ''$$cap_''"
    and k: "includesStr ''nginx:$$version'' ''$$''"
    and n: "\<not> includesStr ''nginx:$$version'' ''$$cap_''"
    and c: "length (filter isColon ''nginx:$$version'') = 1"
    by code_simp+
  from parseDockerImage_invalid_iff [of "''wordpress:$$cap_wp_version''"] h
  have "parseDockerImage ''wordpress:$$cap_wp_version'' = None" by blast
  moreover from parseDockerImage_invalid_iff [of "''nginx:$$version''"] n c
  have "parseDockerImage ''nginx:$$version'' \<noteq> None" by simp
  ultimately show ?thesis using h k by blast
qed

text \<open>Every string with \<open>$$cap_\<close> in it has \<open>$$\<close> in it.\<close>

lemma startsWith_append: "startsWith s (p @ q) \<Longrightarrow> startsWith s p"
  by (induction s p rule: startsWith.induct) auto

lemma includesStr_append: "includesStr s (p @ q) \<Longrightarrow> includesStr s p"
  by (induction s) (auto dest: startsWith_append)

lemma cap_marker_is_dollar_marker: "includesStr s ''$$cap_'' \<Longrightarrow> includesStr s ''$$''"
  using includesStr_append [of s "''$$''" "''cap_''"] by simp

section \<open>Properties of the template variable resolver\<close>

text \<open>
  Claim C3 does not hold of the script.  \<open>replace\<close> with a string pattern replaces the
  first occurrence only, so a variable id that occurs twice in the image is resolved
  once: with the binding \<open>$$cap_f \<mapsto> slim\<close> the image \<open>org/app-$$cap_f:1.0-$$cap_f\<close>
  becomes \<open>org/app-slim:1.0-$$cap_f\<close>, not \<open>org/app-slim:1.0-slim\<close>, and the service is
  then skipped as unresolved although its only variable is bound.
\<close>

theorem resolveImage_first_occurrence_only:
  "resolveImage ''org/app-$$cap_f:1.0-$$cap_f'' [(''$$cap_f'', ''slim'')]
     = ''org/app-slim:1.0-$$cap_f''
   \<and> resolveService ''app'' [(''$$cap_f'', ''slim'')]
         (''$$cap_appname'', Some ''org/app-$$cap_f:1.0-$$cap_f'') = None"
  by code_simp

lemma resolveService_Some:
  assumes "resolveService base vars e = Some s"
  shows "serviceName s = fst e \<and> \<not> includesStr (resolvedImage s) ''$$''
         \<and> (\<exists>img. snd e = Some img \<and> resolvedImage s = resolveImage img vars)"
  using assms
  by (auto simp: resolveService_def Let_def resolveImage_def split: option.splits if_splits)

lemma extractServices_from:
  "s \<in> set (extractServices base vars es) \<Longrightarrow>
   \<exists>e \<in> set es. resolveService base vars e = Some s"
  by (induction es) (auto split: option.splits)

text \<open>
  Claim C6.  The services of a template are the entries of an object, so their names are
  distinct.  If the marker \<open>$$\<close> remains in a service's image after all substitutions,
  the loop body yields nothing for that service, and no resolved service carries its
  name; and no resolved service at all has \<open>$$\<close> left in its resolved image.
\<close>

theorem unresolved_service_excluded:
  assumes keys: "distinct (map fst entries)"
    and entry: "(name, Some img) \<in> set entries"
    and left: "includesStr (resolveImage img vars) ''$$''"
  shows "resolveService base vars (name, Some img) = None
         \<and> (\<forall>s \<in> set (extractServices base vars entries).
               serviceName s \<noteq> name \<and> \<not> includesStr (resolvedImage s) ''$$'')"
proof (intro conjI ballI)
  show "resolveService base vars (name, Some img) = None"
  proof (cases "resolveService base vars (name, Some img)")
    case (Some s)
    from resolveService_Some [OF Some] left show ?thesis by auto
  qed simp
next
  fix s assume "s \<in> set (extractServices base vars entries)"
  then obtain e where e: "e \<in> set entries" "resolveService base vars e = Some s"
    using extractServices_from by blast
  from resolveService_Some [OF e(2)] obtain i where
    s: "serviceName s = fst e" "\<not> includesStr (resolvedImage s) ''$$''"
       "snd e = Some i" "resolvedImage s = resolveImage i vars"
    by blast
  show "\<not> includesStr (resolvedImage s) ''$$''" by (rule s(2))
  show "serviceName s \<noteq> name"
  proof
    assume "serviceName s = name"
    with s have "e = (name, Some i)" by (cases e) simp
    with e(1) entry keys have "i = img"
      using eq_key_imp_eq_value by fastforce
    with s left show False by simp
  qed
qed

text \<open>
  Claim C6, witness: a template with two main services, one whose variable has no
  binding and one whose variable resolves; only the second is among the results.
\<close>

theorem unresolved_service_excluded_witness:
  "distinct (map fst [(''$$cap_appname'', Some ''app:$$cap_x''),
                      (''$$cap_appname-db'', Some ''postgres:$$cap_pg'')])
   \<and> includesStr (resolveImage ''app:$$cap_x'' [(''$$cap_pg'', ''13'')]) ''$$''
   \<and> map serviceName (extractServices ''db'' [(''$$cap_pg'', ''13'')]
        [(''$$cap_appname'', Some ''app:$$cap_x''),
         (''$$cap_appname-db'', Some ''postgres:$$cap_pg'')])
       = [''$$cap_appname-db'']
   \<and> map resolvedImage (extractServices ''db'' [(''$$cap_pg'', ''13'')]
        [(''$$cap_appname'', Some ''app:$$cap_x''),
         (''$$cap_appname-db'', Some ''postgres:$$cap_pg'')])
       = [''postgres:13'']
   \<and> resolveService ''db'' [(''$$cap_pg'', ''13'')] (''$$cap_appname'', Some ''app:$$cap_x'')
       = None"
proof -
  let ?es = "[(''$$cap_appname'', Some ''app:$$cap_x''),
              (''$$cap_appname-db'', Some ''postgres:$$cap_pg'')]"
  let ?vs = "[(''$$cap_pg'', ''13'')]"
  have d: "distinct (map fst ?es)" by simp
  have m: "(''$$cap_appname'', Some ''app:$$cap_x'') \<in> set ?es" by simp
  have l: "includesStr (resolveImage ''app:$$cap_x'' ?vs) ''$$''" by code_simp
  have out: "extractServices ''db'' ?vs ?es =
     [\<lparr>serviceName = ''$$cap_appname-db'', originalImage = ''postgres:$$cap_pg'',
       resolvedImage = ''postgres:13'', hasVariables = True,
       parsed = \<lparr>full = ''postgres:13'', registry = ''docker.io'', namespace = ''library'',
                 repository = ''postgres'', fullName = ''library/postgres'', tag = ''13'',
                 isOfficial = True\<rparr>\<rparr>]"
    by code_simp
  from unresolved_service_excluded [OF d m l, of "''db''"] d l out
  show ?thesis by simp
qed

end
